theory Spec2Isabelle
  imports Main
begin

section \<open>The extension module \<open>dials_algorithms_integration_ext\<close>\<close>

text \<open>
  The translation unit \<^verbatim>\<open>algorithms/integration/boost_python/integration_ext.cc\<close>
  declares four functions without defining them,
  \<^verbatim>\<open>
  void export_luiso_s_2d_integration();
  void export_summation();
  void export_summation_reciprocal_space();
  void export_profile_fitting_reciprocal_space();
  \<close>
  and defines the body of the module,
  \<^verbatim>\<open>
  BOOST_PYTHON_MODULE(dials_algorithms_integration_ext)
  {
    export_luiso_s_2d_integration();
    export_summation();
    export_summation_reciprocal_space();
    export_profile_fitting_reciprocal_space();
  }
  \<close>
  The four functions take no argument and return nothing: all they do is act on the state of
  the hosting process, or throw. The body has no \<^verbatim>\<open>try\<close>, no \<^verbatim>\<open>catch\<close> and
  no test of any kind, so a throw of one call leaves the body at once. The macro
  \<^verbatim>\<open>BOOST_PYTHON_MODULE\<close> belongs to Boost.Python, not to this repository; it wraps the
  body in the initialization function that the host loader calls. What is modelled here is
  the body.
\<close>

subsection \<open>The declared functions and what linking supplies\<close>

text \<open>One tag for each of the four declared functions (lines 18 to 21).\<close>

datatype export_fn =
    Export_luiso_s_2d_integration
  | Export_summation
  | Export_summation_reciprocal_space
  | Export_profile_fitting_reciprocal_space

text \<open>
  The definitions of the four functions live in other translation units. They are a parameter of
  the model: a linkage gives, for each declared function, its effect on the host state \<open>'s\<close>.
  A call either returns, with the new state (\<open>Inr\<close>), or throws \<open>'e\<close>, leaving the state it had
  reached when it threw (\<open>Inl\<close>).
\<close>

type_synonym ('e, 's) linkage = "export_fn \<Rightarrow> 's \<Rightarrow> 'e \<times> 's + 's"

text \<open>
  A running process: the host state, and the record of the calls the module body has made to
  the declared functions, oldest first. The record is what lets a theorem speak of which
  functions were called, how often and in which order.
\<close>

record 's process =
  calls :: "export_fn list"
  host :: 's

text \<open>One call statement: the call is recorded, then the linked function runs on the host state.\<close>

definition invoke :: "('e, 's) linkage \<Rightarrow> export_fn \<Rightarrow> 's process \<Rightarrow> 'e \<times> 's process + 's process" where
  "invoke externs f p =
     (case externs f (host p) of
        Inl (e, h) \<Rightarrow> Inl (e, \<lparr>calls = calls p @ [f], host = h\<rparr>)
      | Inr h \<Rightarrow> Inr \<lparr>calls = calls p @ [f], host = h\<rparr>)"

text \<open>
  Statement sequencing in C++: the next statement runs only if the previous one returned; an
  exception passes through untouched.
\<close>

definition then_call :: "'e \<times> 'p + 'p \<Rightarrow> ('p \<Rightarrow> 'e \<times> 'p + 'p) \<Rightarrow> 'e \<times> 'p + 'p" where
  "then_call r next_statement = (case r of Inl thrown \<Rightarrow> Inl thrown | Inr p \<Rightarrow> next_statement p)"

definition export_luiso_s_2d_integration ::
    "('e, 's) linkage \<Rightarrow> 's process \<Rightarrow> 'e \<times> 's process + 's process" where
  "export_luiso_s_2d_integration externs = invoke externs Export_luiso_s_2d_integration"

definition export_summation ::
    "('e, 's) linkage \<Rightarrow> 's process \<Rightarrow> 'e \<times> 's process + 's process" where
  "export_summation externs = invoke externs Export_summation"

definition export_summation_reciprocal_space ::
    "('e, 's) linkage \<Rightarrow> 's process \<Rightarrow> 'e \<times> 's process + 's process" where
  "export_summation_reciprocal_space externs = invoke externs Export_summation_reciprocal_space"

definition export_profile_fitting_reciprocal_space ::
    "('e, 's) linkage \<Rightarrow> 's process \<Rightarrow> 'e \<times> 's process + 's process" where
  "export_profile_fitting_reciprocal_space externs =
     invoke externs Export_profile_fitting_reciprocal_space"

subsection \<open>The module body\<close>

text \<open>Lines 23 to 29: four call statements, one after the other.\<close>

definition dials_algorithms_integration_ext ::
    "('e, 's) linkage \<Rightarrow> 's process \<Rightarrow> 'e \<times> 's process + 's process" where
  "dials_algorithms_integration_ext externs p =
     then_call
       (then_call
          (then_call
             (export_luiso_s_2d_integration externs p)
             (export_summation externs))
          (export_summation_reciprocal_space externs))
       (export_profile_fitting_reciprocal_space externs)"

text \<open>The process as the body leaves it, whether it returned or threw.\<close>

definition final_process :: "'e \<times> 's process + 's process \<Rightarrow> 's process" where
  "final_process r = (case r of Inl (e, p) \<Rightarrow> p | Inr p \<Rightarrow> p)"

subsection \<open>Running a list of calls\<close>

text \<open>
  The four functions in the order of the call statements, and the run of any list of calls with
  the sequencing of the body. The body is the run of the four (\<open>body_is_run\<close> below); the
  runs of the shorter prefixes are the points the body passes through.
\<close>

definition exports_in_order :: "export_fn list" where
  "exports_in_order =
     [Export_luiso_s_2d_integration, Export_summation,
      Export_summation_reciprocal_space, Export_profile_fitting_reciprocal_space]"

fun run_exports ::
    "('e, 's) linkage \<Rightarrow> export_fn list \<Rightarrow> 's process \<Rightarrow> 'e \<times> 's process + 's process" where
  "run_exports externs [] p = Inr p"
| "run_exports externs (f # fs) p = then_call (invoke externs f p) (run_exports externs fs)"

subsection \<open>The capability table of the host\<close>

text \<open>
  What the four functions act on is, in the data model of the spec, the host's capability
  table: an ordered mapping from string identifiers to native callables, kept here in insertion
  order, with the flag that says whether the host is ready to accept registrations.
\<close>

record 'c capability_host =
  available :: bool
  table :: "(string \<times> 'c) list"

definition table_names :: "'c capability_host \<Rightarrow> string list" where
  "table_names h = map fst (table h)"

text \<open>
  The bodies of the four functions are not part of the translation unit. The spec states the
  contract they are taken to obey: "accept a reference to the host's capability table and
  install exactly one named entry; fail with a load error if the name is already taken or the
  table is unavailable". Each clause is a condition on the linkage: a call that returns has
  installed exactly one entry, under the function's identifier, after the entries that were
  there; a call finding its identifier taken throws; a call that throws has installed nothing.
  Where a theorem on the body needs a clause it takes it as a hypothesis, and holds for every
  linkage that obeys it and every naming \<open>nm\<close> of the four functions.
\<close>

definition installs_one_named_entry ::
    "(export_fn \<Rightarrow> string) \<Rightarrow> ('e, 'c capability_host) linkage \<Rightarrow> bool" where
  "installs_one_named_entry nm externs \<longleftrightarrow>
     (\<forall>f h h'. externs f h = Inr h' \<longrightarrow> (\<exists>c. table h' = table h @ [(nm f, c)]))"

definition throws_if_name_taken ::
    "(export_fn \<Rightarrow> string) \<Rightarrow> ('e, 'c capability_host) linkage \<Rightarrow> bool" where
  "throws_if_name_taken nm externs \<longleftrightarrow>
     (\<forall>f h. nm f \<in> set (table_names h) \<longrightarrow> (\<exists>e h'. externs f h = Inl (e, h')))"

definition throw_installs_nothing :: "('e, 'c capability_host) linkage \<Rightarrow> bool" where
  "throw_installs_nothing externs \<longleftrightarrow>
     (\<forall>f h e h'. externs f h = Inl (e, h') \<longrightarrow> table h' = table h)"

subsection \<open>A linkage to run the body on\<close>

text \<open>
  Modelled from the spec: the errors a registration can fail with. The bodies of the four
  export functions are missing from the translation unit; the spec has them "fail with a load
  error if the name is already taken or the table is unavailable".
\<close>

datatype load_error = Already_registered string | Table_unavailable

text \<open>
  Modelled from the spec: the four native routines the missing export functions expose, which
  the spec lists as 2D profile integration, simple summation, reciprocal-space summation and
  reciprocal-space profile fitting.
\<close>

datatype native_routine =
    Profile_integration_2d
  | Simple_summation
  | Reciprocal_space_summation
  | Reciprocal_space_profile_fitting

text \<open>
  Modelled from the spec: the identifier each missing export function installs, as the data
  model of the spec lists them (\<^verbatim>\<open>"luiso_s_2d_integration"\<close>, \<^verbatim>\<open>"summation"\<close>,
  \<^verbatim>\<open>"summation_reciprocal_space"\<close>, \<^verbatim>\<open>"profile_fitting_reciprocal_space"\<close>).
\<close>

fun capability_name :: "export_fn \<Rightarrow> string" where
  "capability_name Export_luiso_s_2d_integration = ''luiso_s_2d_integration''"
| "capability_name Export_summation = ''summation''"
| "capability_name Export_summation_reciprocal_space = ''summation_reciprocal_space''"
| "capability_name Export_profile_fitting_reciprocal_space = ''profile_fitting_reciprocal_space''"

text \<open>Modelled from the spec: the routine behind the entry each missing export function installs.\<close>

fun capability_routine :: "export_fn \<Rightarrow> native_routine" where
  "capability_routine Export_luiso_s_2d_integration = Profile_integration_2d"
| "capability_routine Export_summation = Simple_summation"
| "capability_routine Export_summation_reciprocal_space = Reciprocal_space_summation"
| "capability_routine Export_profile_fitting_reciprocal_space = Reciprocal_space_profile_fitting"

text \<open>
  Modelled from the spec: what the body of a missing export function does, by the contract
  "accept a reference to the host's capability table and install exactly one named entry; fail
  with a load error if the name is already taken or the table is unavailable". A failed
  registration leaves the host as it found it.
\<close>

definition register_capability ::
    "string \<Rightarrow> 'c \<Rightarrow> 'c capability_host \<Rightarrow> load_error \<times> 'c capability_host + 'c capability_host" where
  "register_capability n c h =
     (if n \<in> set (table_names h) then Inl (Already_registered n, h)
      else if \<not> available h then Inl (Table_unavailable, h)
      else Inr (h\<lparr>table := table h @ [(n, c)]\<rparr>))"

text \<open>
  Modelled from the spec: the four missing export functions, each registering its routine
  under the identifier the naming \<open>nm\<close> gives it; and the four with the identifiers of the
  spec. These linkages are what the body is run on at concrete processes; the theorems on the
  body hold for every linkage.
\<close>

definition registrations_named ::
    "(export_fn \<Rightarrow> string) \<Rightarrow> (load_error, native_routine capability_host) linkage" where
  "registrations_named nm f = register_capability (nm f) (capability_routine f)"

definition registrations :: "(load_error, native_routine capability_host) linkage" where
  "registrations = registrations_named capability_name"

text \<open>
  A fault to inject, the "injected duplicate name" of the spec: the function \<open>f\<close> registers
  under the identifier of \<open>g\<close>, so that its registration meets a taken name once \<open>g\<close> has run.
\<close>

definition with_duplicate_name :: "export_fn \<Rightarrow> export_fn \<Rightarrow> export_fn \<Rightarrow> string" where
  "with_duplicate_name f g = capability_name (f := capability_name g)"

text \<open>A process that has just been started, and the same process after a load that worked.\<close>

definition fresh_process :: "native_routine capability_host process" where
  "fresh_process = \<lparr>calls = [], host = \<lparr>available = True, table = []\<rparr>\<rparr>"

definition loaded_process :: "native_routine capability_host process" where
  "loaded_process =
     \<lparr>calls = exports_in_order,
      host = \<lparr>available = True,
              table = map (\<lambda>f. (capability_name f, capability_routine f)) exports_in_order\<rparr>\<rparr>"

section \<open>Facts about runs\<close>

lemma then_call_simps:
  "then_call (Inl t) k = Inl t"
  "then_call (Inr p) k = k p"
  by (simp_all add: then_call_def)

lemma body_is_run:
  "dials_algorithms_integration_ext externs p = run_exports externs exports_in_order p"
  unfolding dials_algorithms_integration_ext_def exports_in_order_def
    export_luiso_s_2d_integration_def export_summation_def
    export_summation_reciprocal_space_def export_profile_fitting_reciprocal_space_def
  by (simp add: then_call_def split: sum.splits)

lemma run_exports_append:
  "run_exports externs (fs @ gs) p = then_call (run_exports externs fs p) (run_exports externs gs)"
proof (induction fs arbitrary: p)
  case Nil
  show ?case by (simp add: then_call_simps)
next
  case (Cons f fs)
  show ?case
    by (cases "invoke externs f p") (simp_all add: then_call_simps Cons.IH)
qed

lemma invoke_returns:
  "invoke externs f p = Inr q \<longleftrightarrow> (\<exists>h. externs f (host p) = Inr h \<and> q = \<lparr>calls = calls p @ [f], host = h\<rparr>)"
  by (auto simp: invoke_def split: sum.splits prod.splits)

lemma invoke_throws:
  "invoke externs f p = Inl (e, q) \<longleftrightarrow>
     (\<exists>h. externs f (host p) = Inl (e, h) \<and> q = \<lparr>calls = calls p @ [f], host = h\<rparr>)"
  by (auto simp: invoke_def split: sum.splits prod.splits)

lemma run_returns_calls:
  "run_exports externs fs p = Inr q \<Longrightarrow> calls q = calls p @ fs"
proof (induction fs arbitrary: p)
  case Nil
  then show ?case by simp
next
  case (Cons f fs)
  then obtain r where r: "invoke externs f p = Inr r" and rest: "run_exports externs fs r = Inr q"
    by (cases "invoke externs f p") (simp_all add: then_call_simps)
  from r have "calls r = calls p @ [f]"
    by (auto simp: invoke_returns)
  with Cons.IH [OF rest] show ?case by simp
qed

text \<open>
  A run that throws threw at one call: the calls before it returned, that call threw, and what
  the run hands on is the state that call left, with that call the last one recorded.
\<close>

lemma run_throws_at:
  "run_exports externs fs p = Inl (e, q) \<Longrightarrow>
     \<exists>k r. k < length fs \<and> run_exports externs (take k fs) p = Inr r \<and>
           externs (fs ! k) (host r) = Inl (e, host q) \<and>
           calls q = calls p @ take (Suc k) fs"
proof (induction fs arbitrary: p)
  case Nil
  then show ?case by simp
next
  case (Cons f fs)
  show ?case
  proof (cases "invoke externs f p")
    case (Inl t)
    with Cons.prems have t: "t = (e, q)"
      by (simp add: then_call_simps)
    with Inl have "externs f (host p) = Inl (e, host q)" "calls q = calls p @ [f]"
      by (auto simp: invoke_throws)
    then have "0 < length (f # fs) \<and> run_exports externs (take 0 (f # fs)) p = Inr p \<and>
        externs ((f # fs) ! 0) (host p) = Inl (e, host q) \<and>
        calls q = calls p @ take (Suc 0) (f # fs)"
      by simp
    then show ?thesis by blast
  next
    case (Inr r)
    with Cons.prems have "run_exports externs fs r = Inl (e, q)"
      by (simp add: then_call_simps)
    from Cons.IH [OF this] obtain k r' where k: "k < length fs"
      and pre: "run_exports externs (take k fs) r = Inr r'"
      and thr: "externs (fs ! k) (host r') = Inl (e, host q)"
      and cs: "calls q = calls r @ take (Suc k) fs"
      by blast
    from Inr have "calls r = calls p @ [f]"
      by (auto simp: invoke_returns)
    with k pre thr cs Inr
    have "Suc k < length (f # fs) \<and> run_exports externs (take (Suc k) (f # fs)) p = Inr r' \<and>
        externs ((f # fs) ! Suc k) (host r') = Inl (e, host q) \<and>
        calls q = calls p @ take (Suc (Suc k)) (f # fs)"
      by (simp add: then_call_simps)
    then show ?thesis by blast
  qed
qed

section \<open>The linkage modelled from the spec obeys the contract\<close>

lemma registrations_named_install:
  "installs_one_named_entry nm (registrations_named nm)"
  by (auto simp: installs_one_named_entry_def registrations_named_def register_capability_def
      split: if_splits)

lemma registrations_named_refuse:
  "throws_if_name_taken nm (registrations_named nm)"
  by (simp add: throws_if_name_taken_def registrations_named_def register_capability_def)

lemma registrations_named_clean:
  "throw_installs_nothing (registrations_named nm)"
  by (auto simp: throw_installs_nothing_def registrations_named_def register_capability_def
      split: if_splits)

lemma fresh_load:
  "dials_algorithms_integration_ext registrations fresh_process = Inr loaded_process"
  by (simp add: body_is_run exports_in_order_def then_call_def invoke_def registrations_def
      registrations_named_def register_capability_def table_names_def fresh_process_def
      loaded_process_def)

lemma length_exports_in_order: "length exports_in_order = 4"
  by (simp add: exports_in_order_def)

section \<open>Which functions the body calls\<close>

text \<open>
  Claim C1. The module body calls the four declared functions, and nothing else, each once and
  in the order 2D integration, summation, reciprocal-space summation, reciprocal-space profile
  fitting. For every linkage and every process: a body that returns has added exactly these
  four calls, in this order, to the record of calls; and whatever happens, the calls it has
  added are the first \<open>k\<close> of the four, in order, for some \<open>k\<close> from 1 to 4 (fewer than four
  only when a call threw, which ends the body).
\<close>

theorem calls_four_exports_in_order:
  "(dials_algorithms_integration_ext externs p = Inr q \<longrightarrow>
      calls q = calls p @ [Export_luiso_s_2d_integration, Export_summation,
        Export_summation_reciprocal_space, Export_profile_fitting_reciprocal_space]) \<and>
   (\<exists>k. 1 \<le> k \<and> k \<le> 4 \<and>
      calls (final_process (dials_algorithms_integration_ext externs p)) =
        calls p @ take k [Export_luiso_s_2d_integration, Export_summation,
          Export_summation_reciprocal_space, Export_profile_fitting_reciprocal_space])"
proof (intro conjI impI)
  assume "dials_algorithms_integration_ext externs p = Inr q"
  then have "run_exports externs exports_in_order p = Inr q"
    by (simp add: body_is_run)
  from run_returns_calls [OF this]
  show "calls q = calls p @ [Export_luiso_s_2d_integration, Export_summation,
        Export_summation_reciprocal_space, Export_profile_fitting_reciprocal_space]"
    by (simp add: exports_in_order_def)
next
  let ?four = "[Export_luiso_s_2d_integration, Export_summation,
          Export_summation_reciprocal_space, Export_profile_fitting_reciprocal_space]"
  have four: "exports_in_order = ?four"
    by (simp add: exports_in_order_def)
  show "\<exists>k. 1 \<le> k \<and> k \<le> 4 \<and>
      calls (final_process (dials_algorithms_integration_ext externs p)) = calls p @ take k ?four"
  proof (cases "run_exports externs exports_in_order p")
    case (Inr q)
    from run_returns_calls [OF this] Inr
    have "1 \<le> (4::nat) \<and> (4::nat) \<le> 4 \<and>
      calls (final_process (dials_algorithms_integration_ext externs p)) = calls p @ take 4 ?four"
      by (simp add: body_is_run final_process_def four)
    then show ?thesis by blast
  next
    case (Inl t)
    obtain e q where t: "t = (e, q)" by (cases t)
    from run_throws_at [OF Inl [unfolded t]] obtain k where
      k: "k < length exports_in_order" and cs: "calls q = calls p @ take (Suc k) exports_in_order"
      by blast
    from k cs Inl t
    have "1 \<le> Suc k \<and> Suc k \<le> 4 \<and>
      calls (final_process (dials_algorithms_integration_ext externs p)) =
        calls p @ take (Suc k) ?four"
      by (simp add: body_is_run final_process_def four)
    then show ?thesis by blast
  qed
qed

text \<open>The body run on a fresh process with the linkage modelled from the spec.\<close>

theorem calls_four_exports_in_order_witness:
  "dials_algorithms_integration_ext registrations fresh_process = Inr loaded_process \<and>
   calls loaded_process = [Export_luiso_s_2d_integration, Export_summation,
     Export_summation_reciprocal_space, Export_profile_fitting_reciprocal_space] \<and>
   calls (final_process (dials_algorithms_integration_ext registrations fresh_process)) =
     [Export_luiso_s_2d_integration, Export_summation,
      Export_summation_reciprocal_space, Export_profile_fitting_reciprocal_space]"
  using calls_four_exports_in_order [of registrations fresh_process loaded_process] fresh_load
  by (simp add: fresh_process_def final_process_def)

section \<open>A call that throws\<close>

lemma run_prefix_then_throw:
  assumes k: "k < length fs"
    and pre: "run_exports externs (take k fs) p = Inr r"
    and thr: "externs (fs ! k) (host r) = Inl (e, h)"
  shows "run_exports externs fs p = Inl (e, \<lparr>calls = calls p @ take (Suc k) fs, host = h\<rparr>)"
proof -
  from k have split: "fs = take k fs @ fs ! k # drop (Suc k) fs"
    by (simp add: id_take_nth_drop)
  from run_returns_calls [OF pre] have cr: "calls r = calls p @ take k fs" .
  from thr have "invoke externs (fs ! k) r = Inl (e, \<lparr>calls = calls r @ [fs ! k], host = h\<rparr>)"
    by (simp add: invoke_throws)
  then have "run_exports externs (fs ! k # drop (Suc k) fs) r =
      Inl (e, \<lparr>calls = calls r @ [fs ! k], host = h\<rparr>)"
    by (simp add: then_call_simps)
  with pre have "run_exports externs (take k fs @ fs ! k # drop (Suc k) fs) p =
      Inl (e, \<lparr>calls = calls r @ [fs ! k], host = h\<rparr>)"
    by (simp add: run_exports_append then_call_simps)
  with split cr k show ?thesis
    by (simp add: take_Suc_conv_app_nth)
qed

text \<open>
  Claim C10. If the \<open>k\<close>-th registration call (\<open>1 \<le> k \<le> 4\<close>) raises an error, none of the
  registrations after it is attempted and the body rolls nothing back. For every linkage: let
  the first \<open>k - 1\<close> calls return, leaving the process \<open>r\<close>, and let the \<open>k\<close>-th call, run on the
  host state of \<open>r\<close>, throw \<open>e\<close> and leave the host state \<open>h\<close>. Then the body throws \<open>e\<close>; the
  calls it made are the first \<open>k\<close> and no other; and the host state it leaves is \<open>h\<close> itself,
  the state the earlier registrations built and the throwing call left, with nothing undone
  by the body.
\<close>

theorem throw_ends_body_without_rollback:
  assumes "1 \<le> k" and "k \<le> 4"
    and "run_exports externs (take (k - 1) exports_in_order) p = Inr r"
    and "externs (exports_in_order ! (k - 1)) (host r) = Inl (e, h)"
  shows "dials_algorithms_integration_ext externs p =
           Inl (e, \<lparr>calls = calls p @ take k exports_in_order, host = h\<rparr>)"
proof -
  from assms(1,2) have "k - 1 < length exports_in_order"
    by (simp add: length_exports_in_order)
  from run_prefix_then_throw [OF this assms(3,4)] assms(1) show ?thesis
    by (simp add: body_is_run)
qed

text \<open>
  With \<open>k = 2\<close>: the second function is made to register under the identifier of the first.
  The first entry is still in the table after the throw, and the third and fourth functions
  were never called.
\<close>

theorem throw_ends_body_without_rollback_witness:
  "dials_algorithms_integration_ext
     (registrations_named (with_duplicate_name Export_summation Export_luiso_s_2d_integration))
     fresh_process =
   Inl (Already_registered ''luiso_s_2d_integration'',
        \<lparr>calls = [Export_luiso_s_2d_integration, Export_summation],
         host = \<lparr>available = True,
                 table = [(''luiso_s_2d_integration'', Profile_integration_2d)]\<rparr>\<rparr>)"
  using throw_ends_body_without_rollback [of 2
      "registrations_named (with_duplicate_name Export_summation Export_luiso_s_2d_integration)"
      fresh_process
      "\<lparr>calls = [Export_luiso_s_2d_integration],
        host = \<lparr>available = True, table = [(''luiso_s_2d_integration'', Profile_integration_2d)]\<rparr>\<rparr>"
      "Already_registered ''luiso_s_2d_integration''"
      "\<lparr>available = True, table = [(''luiso_s_2d_integration'', Profile_integration_2d)]\<rparr>"]
  by (simp add: exports_in_order_def then_call_def invoke_def registrations_named_def
      register_capability_def table_names_def fresh_process_def with_duplicate_name_def)

section \<open>What a load leaves in the table\<close>

lemma invoke_returns_names:
  assumes "installs_one_named_entry nm externs" and "invoke externs f p = Inr q"
  shows "table_names (host q) = table_names (host p) @ [nm f]"
proof -
  from assms(2) obtain h where h: "externs f (host p) = Inr h" and q: "host q = h"
    by (auto simp: invoke_returns)
  from assms(1) h obtain c where "table h = table (host p) @ [(nm f, c)]"
    unfolding installs_one_named_entry_def by blast
  with q show ?thesis
    by (simp add: table_names_def)
qed

lemma run_returns_names:
  assumes "installs_one_named_entry nm externs"
  shows "run_exports externs fs p = Inr q \<Longrightarrow>
    table_names (host q) = table_names (host p) @ map nm fs"
proof (induction fs arbitrary: p)
  case Nil
  then show ?case by simp
next
  case (Cons f fs)
  then obtain r where r: "invoke externs f p = Inr r" and rest: "run_exports externs fs r = Inr q"
    by (cases "invoke externs f p") (simp_all add: then_call_simps)
  from invoke_returns_names [OF assms r] Cons.IH [OF rest] show ?case
    by simp
qed

text \<open>
  Claim C2. After a successful invocation of the module body the capability table holds exactly
  four identifiers, one per registration function. For every linkage whose functions install
  one named entry per returning call: a body that returns has appended exactly the four
  identifiers, one for each function, in the order of the calls, to the identifiers the table
  held; so a load into the empty table of a fresh module leaves exactly these four, no more and
  no fewer.
\<close>

theorem successful_load_installs_four:
  assumes "installs_one_named_entry nm externs"
    and "dials_algorithms_integration_ext externs p = Inr q"
  shows "table_names (host q) =
           table_names (host p) @
           [nm Export_luiso_s_2d_integration, nm Export_summation,
            nm Export_summation_reciprocal_space, nm Export_profile_fitting_reciprocal_space] \<and>
         length (table (host q)) = length (table (host p)) + 4 \<and>
         (if table (host p) = []
          then length (table (host q)) = 4 \<and>
               table_names (host q) =
                 [nm Export_luiso_s_2d_integration, nm Export_summation,
                  nm Export_summation_reciprocal_space, nm Export_profile_fitting_reciprocal_space]
          else 4 < length (table (host q)))"
proof -
  from assms(2) have "run_exports externs exports_in_order p = Inr q"
    by (simp add: body_is_run)
  from run_returns_names [OF assms(1) this]
  have names: "table_names (host q) =
           table_names (host p) @
           [nm Export_luiso_s_2d_integration, nm Export_summation,
            nm Export_summation_reciprocal_space, nm Export_profile_fitting_reciprocal_space]"
    by (simp add: exports_in_order_def)
  then have "length (table_names (host q)) = length (table_names (host p)) + 4"
    by simp
  then have len: "length (table (host q)) = length (table (host p)) + 4"
    by (simp add: table_names_def)
  from names len show ?thesis
    by (auto simp: table_names_def)
qed

theorem successful_load_installs_four_witness:
  "dials_algorithms_integration_ext registrations fresh_process = Inr loaded_process \<and>
   table_names (host loaded_process) =
     [''luiso_s_2d_integration'', ''summation'', ''summation_reciprocal_space'',
      ''profile_fitting_reciprocal_space''] \<and>
   length (table (host loaded_process)) = 4"
  using successful_load_installs_four [of capability_name registrations fresh_process loaded_process]
    registrations_named_install [of capability_name] fresh_load
  by (simp add: registrations_def fresh_process_def table_names_def)

section \<open>A load that fails\<close>

text \<open>
  Against claim C3, as stated. The third function is made to register under the identifier of
  the second, a duplicate name, and the body is run on a fresh process. The load fails, and the
  table is left with the two entries of the first two registrations, not with none.
\<close>

theorem atomic_load_counterexample:
  "dials_algorithms_integration_ext
     (registrations_named (with_duplicate_name Export_summation_reciprocal_space Export_summation))
     fresh_process =
   Inl (Already_registered ''summation'',
        \<lparr>calls = [Export_luiso_s_2d_integration, Export_summation,
                  Export_summation_reciprocal_space],
         host = \<lparr>available = True,
                 table = [(''luiso_s_2d_integration'', Profile_integration_2d),
                          (''summation'', Simple_summation)]\<rparr>\<rparr>) \<and>
   length (table (host (final_process
     (dials_algorithms_integration_ext
        (registrations_named
           (with_duplicate_name Export_summation_reciprocal_space Export_summation))
        fresh_process)))) = 2"
  by (simp add: body_is_run exports_in_order_def then_call_def invoke_def registrations_named_def
      register_capability_def table_names_def fresh_process_def with_duplicate_name_def
      final_process_def)

text \<open>
  Claim C3, amended. If one of the four registrations fails, the whole load fails with the
  error of that registration and no later registration runs, but nothing is rolled back: the
  table is left with what it held before the load and, after that, the entries of the
  registrations that ran before the failing one (two of them when the third fails). It is
  left with no entry only when it was empty before the load and the first registration is the
  one that fails. This is stated for every linkage whose functions install one named entry
  when they return and none when they throw.
\<close>

theorem failed_load_keeps_earlier_entries:
  assumes "installs_one_named_entry nm externs" and "throw_installs_nothing externs"
    and "dials_algorithms_integration_ext externs p = Inl (e, q)"
  shows "\<exists>k. k < 4 \<and>
           table_names (host q) = table_names (host p) @ map nm (take k exports_in_order) \<and>
           calls q = calls p @ take (Suc k) exports_in_order \<and>
           (table (host q) = [] \<longleftrightarrow> table (host p) = [] \<and> k = 0)"
proof -
  from assms(3) have "run_exports externs exports_in_order p = Inl (e, q)"
    by (simp add: body_is_run)
  from run_throws_at [OF this] obtain k r where k: "k < length exports_in_order"
    and pre: "run_exports externs (take k exports_in_order) p = Inr r"
    and thr: "externs (exports_in_order ! k) (host r) = Inl (e, host q)"
    and cs: "calls q = calls p @ take (Suc k) exports_in_order"
    by blast
  from assms(2) thr have "table (host q) = table (host r)"
    unfolding throw_installs_nothing_def by blast
  with run_returns_names [OF assms(1) pre]
  have names: "table_names (host q) = table_names (host p) @ map nm (take k exports_in_order)"
    by (simp add: table_names_def)
  have "table (host q) = [] \<longleftrightarrow> table_names (host q) = []"
    by (simp add: table_names_def)
  also from names k have "\<dots> \<longleftrightarrow> table (host p) = [] \<and> k = 0"
    by (auto simp: table_names_def exports_in_order_def)
  finally have empty: "table (host q) = [] \<longleftrightarrow> table (host p) = [] \<and> k = 0" .
  from k have "k < 4"
    by (simp add: length_exports_in_order)
  with names cs empty show ?thesis
    by blast
qed

text \<open>
  The fourth function is made to register under the identifier of the second: the load fails
  at the fourth call and the three earlier entries stay.
\<close>

theorem failed_load_keeps_earlier_entries_witness:
  "dials_algorithms_integration_ext
     (registrations_named
        (with_duplicate_name Export_profile_fitting_reciprocal_space Export_summation))
     fresh_process =
   Inl (Already_registered ''summation'',
        \<lparr>calls = exports_in_order,
         host = \<lparr>available = True,
                 table = [(''luiso_s_2d_integration'', Profile_integration_2d),
                          (''summation'', Simple_summation),
                          (''summation_reciprocal_space'', Reciprocal_space_summation)]\<rparr>\<rparr>) \<and>
   (\<exists>k. k < 4 \<and>
      [''luiso_s_2d_integration'', ''summation'', ''summation_reciprocal_space''] =
        table_names (host fresh_process) @
        map (with_duplicate_name Export_profile_fitting_reciprocal_space Export_summation)
          (take k exports_in_order) \<and>
      exports_in_order = calls fresh_process @ take (Suc k) exports_in_order)"
proof -
  let ?nm = "with_duplicate_name Export_profile_fitting_reciprocal_space Export_summation"
  let ?q = "\<lparr>calls = exports_in_order,
     host = \<lparr>available = True,
             table = [(''luiso_s_2d_integration'', Profile_integration_2d),
                      (''summation'', Simple_summation),
                      (''summation_reciprocal_space'', Reciprocal_space_summation)]\<rparr>\<rparr>"
  have failed: "dials_algorithms_integration_ext (registrations_named ?nm) fresh_process =
      Inl (Already_registered ''summation'', ?q)"
    by (simp add: body_is_run exports_in_order_def then_call_def invoke_def
        registrations_named_def register_capability_def table_names_def fresh_process_def
        with_duplicate_name_def)
  from failed_load_keeps_earlier_entries
    [OF registrations_named_install registrations_named_clean failed]
  obtain k where "k < 4"
    and "table_names (host ?q) = table_names (host fresh_process) @ map ?nm (take k exports_in_order)"
    and "calls ?q = calls fresh_process @ take (Suc k) exports_in_order"
    by blast
  then have "k < 4 \<and>
      [''luiso_s_2d_integration'', ''summation'', ''summation_reciprocal_space''] =
        table_names (host fresh_process) @ map ?nm (take k exports_in_order) \<and>
      exports_in_order = calls fresh_process @ take (Suc k) exports_in_order"
    by (simp add: table_names_def)
  then have "\<exists>k. k < 4 \<and>
      [''luiso_s_2d_integration'', ''summation'', ''summation_reciprocal_space''] =
        table_names (host fresh_process) @ map ?nm (take k exports_in_order) \<and>
      exports_in_order = calls fresh_process @ take (Suc k) exports_in_order"
    by (rule exI)
  with failed show ?thesis
    by (rule conjI)
qed

section \<open>Two loads\<close>

text \<open>
  Claim C7. Registration is deterministic: any two successful loads of the module, in separate
  process runs, leave tables that enumerate the same identifiers in the same insertion order.
  The two runs may differ in everything the body does not decide: the linkage behind the four
  functions (with the same naming, each installing one named entry per returning call), the
  callables, the errors, the rest of the host state and the calls recorded before. If the two
  tables enumerate alike before the loads (both empty, for fresh modules) and both loads return,
  the tables enumerate alike afterwards, and the two loads made the same calls in the same order.
\<close>

theorem load_order_deterministic:
  assumes "installs_one_named_entry nm externs1" and "installs_one_named_entry nm externs2"
    and "table_names (host p1) = table_names (host p2)"
    and "dials_algorithms_integration_ext externs1 p1 = Inr q1"
    and "dials_algorithms_integration_ext externs2 p2 = Inr q2"
  shows "table_names (host q1) = table_names (host q2) \<and>
         drop (length (calls p1)) (calls q1) = drop (length (calls p2)) (calls q2)"
proof -
  from assms(4) have run1: "run_exports externs1 exports_in_order p1 = Inr q1"
    by (simp add: body_is_run)
  from assms(5) have run2: "run_exports externs2 exports_in_order p2 = Inr q2"
    by (simp add: body_is_run)
  from run_returns_names [OF assms(1) run1] run_returns_names [OF assms(2) run2] assms(3)
  have "table_names (host q1) = table_names (host q2)"
    by simp
  moreover from run_returns_calls [OF run1] run_returns_calls [OF run2]
  have "drop (length (calls p1)) (calls q1) = drop (length (calls p2)) (calls q2)"
    by simp
  ultimately show ?thesis ..
qed

text \<open>
  Two runs: the linkage modelled from the spec on a fresh process, and a linkage that puts the
  same routine behind every identifier, on a process that has recorded a call before.
\<close>

theorem load_order_deterministic_witness:
  "dials_algorithms_integration_ext (\<lambda>f. register_capability (capability_name f) Simple_summation)
     \<lparr>calls = [Export_summation], host = \<lparr>available = True, table = []\<rparr>\<rparr> =
   Inr \<lparr>calls = Export_summation # exports_in_order,
        host = \<lparr>available = True,
                table = map (\<lambda>f. (capability_name f, Simple_summation)) exports_in_order\<rparr>\<rparr> \<and>
   table_names (host loaded_process) =
     table_names \<lparr>available = True,
                  table = map (\<lambda>f. (capability_name f, Simple_summation)) exports_in_order\<rparr> \<and>
   drop (length (calls fresh_process)) (calls loaded_process) =
     drop (length [Export_summation]) (Export_summation # exports_in_order)"
proof -
  let ?externs2 = "\<lambda>f. register_capability (capability_name f) Simple_summation"
  let ?p2 = "\<lparr>calls = [Export_summation], host = \<lparr>available = True, table = []\<rparr>\<rparr>"
  let ?q2 = "\<lparr>calls = Export_summation # exports_in_order,
        host = \<lparr>available = True,
                table = map (\<lambda>f. (capability_name f, Simple_summation)) exports_in_order\<rparr>\<rparr>"
  have contract2: "installs_one_named_entry capability_name ?externs2"
    by (auto simp: installs_one_named_entry_def register_capability_def split: if_splits)
  have load2: "dials_algorithms_integration_ext ?externs2 ?p2 = Inr ?q2"
    by (simp add: body_is_run exports_in_order_def then_call_def invoke_def
        register_capability_def table_names_def)
  have alike: "table_names (host fresh_process) = table_names (host ?p2)"
    by (simp add: fresh_process_def table_names_def)
  from load_order_deterministic
    [OF registrations_named_install contract2 alike fresh_load [unfolded registrations_def] load2]
    load2
  show ?thesis
    by simp
qed

text \<open>
  Claim C4. Invoking the module body a second time in the same process either leaves the
  capability table unchanged or fails with an explicit error; it never produces duplicate
  entries. For every linkage that obeys the contract: after a load that returned, a second
  invocation throws at its first call, whose identifier is taken, makes no other call, and
  leaves the table as the first load left it, with the same entries in the same order.
\<close>

theorem second_load_refused:
  assumes "installs_one_named_entry nm externs" and "throws_if_name_taken nm externs"
    and "throw_installs_nothing externs"
    and "dials_algorithms_integration_ext externs p = Inr q"
  shows "\<exists>e r. dials_algorithms_integration_ext externs q = Inl (e, r) \<and>
           table (host r) = table (host q) \<and>
           calls r = calls q @ [Export_luiso_s_2d_integration]"
proof -
  from assms(4) have "run_exports externs exports_in_order p = Inr q"
    by (simp add: body_is_run)
  from run_returns_names [OF assms(1) this]
  have "nm Export_luiso_s_2d_integration \<in> set (table_names (host q))"
    by (simp add: exports_in_order_def)
  with assms(2) obtain e h where thr: "externs Export_luiso_s_2d_integration (host q) = Inl (e, h)"
    unfolding throws_if_name_taken_def by blast
  with assms(3) have same: "table h = table (host q)"
    unfolding throw_installs_nothing_def by blast
  have "run_exports externs (take 0 exports_in_order) q = Inr q"
    by simp
  moreover from thr have "externs (exports_in_order ! 0) (host q) = Inl (e, h)"
    by (simp add: exports_in_order_def)
  ultimately have "run_exports externs exports_in_order q =
      Inl (e, \<lparr>calls = calls q @ take (Suc 0) exports_in_order, host = h\<rparr>)"
    by (intro run_prefix_then_throw) (simp_all add: length_exports_in_order)
  then have "dials_algorithms_integration_ext externs q =
      Inl (e, \<lparr>calls = calls q @ [Export_luiso_s_2d_integration], host = h\<rparr>)"
    by (simp add: body_is_run exports_in_order_def)
  with same show ?thesis
    by simp
qed

text \<open>The second load of the process that \<open>fresh_load\<close> produced.\<close>

theorem second_load_refused_witness:
  "dials_algorithms_integration_ext registrations loaded_process =
     Inl (Already_registered ''luiso_s_2d_integration'',
          loaded_process\<lparr>calls := exports_in_order @ [Export_luiso_s_2d_integration]\<rparr>) \<and>
   (\<exists>e r. dials_algorithms_integration_ext registrations loaded_process = Inl (e, r) \<and>
      table (host r) = table (host loaded_process) \<and>
      calls r = calls loaded_process @ [Export_luiso_s_2d_integration])"
proof -
  have "dials_algorithms_integration_ext registrations loaded_process =
     Inl (Already_registered ''luiso_s_2d_integration'',
          loaded_process\<lparr>calls := exports_in_order @ [Export_luiso_s_2d_integration]\<rparr>)"
    by (simp add: body_is_run exports_in_order_def then_call_def invoke_def registrations_def
        registrations_named_def register_capability_def table_names_def loaded_process_def)
  moreover note second_load_refused
    [OF registrations_named_install registrations_named_refuse registrations_named_clean
      fresh_load [unfolded registrations_def], folded registrations_def]
  ultimately show ?thesis ..
qed

section \<open>Identifiers are unique\<close>

lemma invoke_keeps_distinct:
  assumes "installs_one_named_entry nm externs" and "throws_if_name_taken nm externs"
    and "throw_installs_nothing externs"
    and "distinct (table_names (host p))"
  shows "distinct (table_names (host (final_process (invoke externs f p))))"
proof (cases "externs f (host p)")
  case (Inl t)
  obtain e h where t: "t = (e, h)" by (cases t)
  with Inl assms(3) have "table h = table (host p)"
    unfolding throw_installs_nothing_def by blast
  with Inl t assms(4) show ?thesis
    by (simp add: invoke_def final_process_def table_names_def)
next
  case (Inr h)
  with assms(1) obtain c where h: "table h = table (host p) @ [(nm f, c)]"
    unfolding installs_one_named_entry_def by blast
  have "nm f \<notin> set (table_names (host p))"
  proof
    assume "nm f \<in> set (table_names (host p))"
    with assms(2) obtain e h' where "externs f (host p) = Inl (e, h')"
      unfolding throws_if_name_taken_def by blast
    with Inr show False by simp
  qed
  with h Inr assms(4) show ?thesis
    by (simp add: invoke_def final_process_def table_names_def)
qed

lemma run_keeps_distinct:
  assumes "installs_one_named_entry nm externs" and "throws_if_name_taken nm externs"
    and "throw_installs_nothing externs"
  shows "distinct (table_names (host p)) \<Longrightarrow>
    distinct (table_names (host (final_process (run_exports externs fs p))))"
proof (induction fs arbitrary: p)
  case Nil
  then show ?case by (simp add: final_process_def)
next
  case (Cons f fs)
  from invoke_keeps_distinct [OF assms Cons.prems]
  have step: "distinct (table_names (host (final_process (invoke externs f p))))" .
  show ?case
  proof (cases "invoke externs f p")
    case (Inl t)
    with step show ?thesis by (simp add: then_call_simps)
  next
    case (Inr r)
    with step have "distinct (table_names (host r))"
      by (simp add: final_process_def)
    from Cons.IH [OF this] Inr show ?thesis
      by (simp add: then_call_simps)
  qed
qed

text \<open>
  Claim C6. At every point during and after registration the identifiers in the capability
  table are pairwise distinct; every registration step preserves this. For every linkage that
  obeys the contract and every table whose identifiers are distinct before the load (the empty
  table of a fresh module is one): the identifiers are distinct at the point the body has
  reached after its first \<open>k\<close> call statements, for every \<open>k\<close>, whether those calls returned or
  one of them threw, and they are distinct when the body is left.
\<close>

theorem identifiers_stay_distinct:
  assumes "installs_one_named_entry nm externs" and "throws_if_name_taken nm externs"
    and "throw_installs_nothing externs"
    and "distinct (table_names (host p))"
  shows "distinct (table_names (host (final_process
           (run_exports externs (take k exports_in_order) p)))) \<and>
         distinct (table_names (host (final_process
           (dials_algorithms_integration_ext externs p))))"
  using run_keeps_distinct [OF assms] by (simp add: body_is_run)

text \<open>
  A table that already holds the identifier of the second function: the first call installs
  its entry, the second throws, and the identifiers are distinct at both points.
\<close>

theorem identifiers_stay_distinct_witness:
  "final_process (run_exports registrations (take 1 exports_in_order)
     \<lparr>calls = [], host = \<lparr>available = True, table = [(''summation'', Simple_summation)]\<rparr>\<rparr>) =
   \<lparr>calls = [Export_luiso_s_2d_integration],
    host = \<lparr>available = True,
            table = [(''summation'', Simple_summation),
                     (''luiso_s_2d_integration'', Profile_integration_2d)]\<rparr>\<rparr> \<and>
   dials_algorithms_integration_ext registrations
     \<lparr>calls = [], host = \<lparr>available = True, table = [(''summation'', Simple_summation)]\<rparr>\<rparr> =
   Inl (Already_registered ''summation'',
        \<lparr>calls = [Export_luiso_s_2d_integration, Export_summation],
         host = \<lparr>available = True,
                 table = [(''summation'', Simple_summation),
                          (''luiso_s_2d_integration'', Profile_integration_2d)]\<rparr>\<rparr>) \<and>
   distinct (table_names (host (final_process (run_exports registrations (take 1 exports_in_order)
     \<lparr>calls = [], host = \<lparr>available = True, table = [(''summation'', Simple_summation)]\<rparr>\<rparr>)))) \<and>
   distinct (table_names (host (final_process (dials_algorithms_integration_ext registrations
     \<lparr>calls = [], host = \<lparr>available = True, table = [(''summation'', Simple_summation)]\<rparr>\<rparr>))))"
proof -
  let ?p = "\<lparr>calls = [], host = \<lparr>available = True, table = [(''summation'', Simple_summation)]\<rparr>\<rparr>"
  have before: "distinct (table_names (host ?p))"
    by (simp add: table_names_def)
  have first: "final_process (run_exports registrations (take 1 exports_in_order) ?p) =
   \<lparr>calls = [Export_luiso_s_2d_integration],
    host = \<lparr>available = True,
            table = [(''summation'', Simple_summation),
                     (''luiso_s_2d_integration'', Profile_integration_2d)]\<rparr>\<rparr>"
    by (simp add: exports_in_order_def then_call_def invoke_def registrations_def
        registrations_named_def register_capability_def table_names_def final_process_def)
  have whole: "dials_algorithms_integration_ext registrations ?p =
   Inl (Already_registered ''summation'',
        \<lparr>calls = [Export_luiso_s_2d_integration, Export_summation],
         host = \<lparr>available = True,
                 table = [(''summation'', Simple_summation),
                          (''luiso_s_2d_integration'', Profile_integration_2d)]\<rparr>\<rparr>)"
    by (simp add: body_is_run exports_in_order_def then_call_def invoke_def registrations_def
        registrations_named_def register_capability_def table_names_def)
  from identifiers_stay_distinct
    [where k = 1 and nm = capability_name, OF registrations_named_install registrations_named_refuse
      registrations_named_clean before, folded registrations_def]
  have "distinct (table_names (host (final_process
           (run_exports registrations (take 1 exports_in_order) ?p)))) \<and>
         distinct (table_names (host (final_process
           (dials_algorithms_integration_ext registrations ?p))))" .
  with first whole show ?thesis
    by blast
qed

end
